theory Spec2Isabelle
  imports Main "HOL-Library.Finite_Map"
begin

section \<open>Shared data: errors, configuration, token sets\<close>

text \<open>
  The error classes of \<^verbatim>\<open>security/errors.ts\<close> that the authentication code throws.
  Each carries its message.
\<close>

datatype error =
    AuthenticationError string
  | AuthorizationError string
  | TokenStorageError string

text \<open>
  The fields of the loaded \<^verbatim>\<open>Environment\<close> (\<^verbatim>\<open>config/environment.ts\<close>) that the
  authentication code reads. \<^verbatim>\<open>STATE_TIMEOUT_MINUTES\<close> is \<^verbatim>\<open>z.coerce.number()\<close>
  with default 5 and no lower bound; it is an integer number of minutes here.
\<close>

record Environment =
  AZURE_REDIRECT_URI :: string
  STATE_TIMEOUT_MINUTES :: int

text \<open>\<^verbatim>\<open>TokenSet\<close> of \<^verbatim>\<open>auth/types.ts\<close>; \<^verbatim>\<open>expiresAt\<close> is in milliseconds since the epoch.\<close>

record TokenSet =
  accessToken :: string
  refreshToken :: string
  expiresAt :: int
  scope :: string

subsection \<open>The token manager\<close>

text \<open>
  \<^verbatim>\<open>ITokenManager\<close> is an interface. Its content is modelled as that of the
  in-memory manager \<^verbatim>\<open>MockTokenManager\<close> of the unit tests, a nullable \<^verbatim>\<open>TokenSet\<close>.
  Reading an empty manager throws (a \<open>TokenStorageError\<close>, as the interface
  documents), and \<^verbatim>\<open>updateAccessToken\<close> on an empty manager does nothing, as in that
  manager. \<^verbatim>\<open>KeytarTokenManager\<close> differs in that its \<^verbatim>\<open>updateAccessToken\<close> throws on
  an empty manager, and in that its reads and deletions fail when the credential store
  of the operating system does; these are not modelled. Token sets are passed as
  values.
\<close>

type_synonym ITokenManager = "TokenSet option"

text \<open>
  \<^verbatim>\<open>storeTokens\<close> can fail: \<^verbatim>\<open>KeytarTokenManager\<close> throws \<open>TokenStorageError\<close> when
  the credential store rejects one of its four writes, and \<^verbatim>\<open>OnePasswordTokenManager\<close>
  always throws. \<open>storing\<close> is what the store does at one call: it takes the token
  set, or it fails with a message and is left holding the given content.
\<close>

datatype storing = Accepts | Fails string ITokenManager

definition storeTokens ::
  "storing \<Rightarrow> TokenSet \<Rightarrow> ITokenManager \<Rightarrow> (error + unit) \<times> ITokenManager" where
  "storeTokens storage tokens tm =
     (case storage of
        Accepts \<Rightarrow> (Inr (), Some tokens)
      | Fails message left \<Rightarrow> (Inl (TokenStorageError message), left))"

definition getTokens :: "ITokenManager \<Rightarrow> error + TokenSet" where
  "getTokens tm =
     (case tm of
        None \<Rightarrow> Inl (TokenStorageError ''No tokens found'')
      | Some tokens \<Rightarrow> Inr tokens)"

definition hasValidTokens :: "int \<Rightarrow> ITokenManager \<Rightarrow> bool" where
  "hasValidTokens now tm =
     (case tm of None \<Rightarrow> False | Some tokens \<Rightarrow> expiresAt tokens > now)"

definition clearTokens :: "ITokenManager \<Rightarrow> ITokenManager" where
  "clearTokens tm = None"

definition updateAccessToken :: "string \<Rightarrow> int \<Rightarrow> ITokenManager \<Rightarrow> ITokenManager" where
  "updateAccessToken newAccessToken newExpiresAt tm =
     (case tm of
        None \<Rightarrow> None
      | Some tokens \<Rightarrow> Some (tokens\<lparr>accessToken := newAccessToken, expiresAt := newExpiresAt\<rparr>))"

subsection \<open>The OAuth provider client\<close>

text \<open>
  What awaiting a call on an external collaborator gives: the promise rejects, or it
  resolves with a value. Every \<^verbatim>\<open>catch\<close> of the code discards the rejection's reason
  (it is only logged), so \<open>Rejects\<close> carries none.
\<close>

datatype 'a awaited = Rejects | Resolves 'a

text \<open>
  The parts of MSAL's \<^verbatim>\<open>AuthenticationResult\<close> and \<^verbatim>\<open>AccountInfo\<close> that the code
  reads. \<open>expiresOn\<close> is the \<^verbatim>\<open>getTime()\<close> of the \<^verbatim>\<open>Date\<close>, or \<open>None\<close> for
  \<^verbatim>\<open>null\<close>; \<open>scopes\<close> is \<open>None\<close> when the field is missing. A missing
  \<^verbatim>\<open>accessToken\<close> and an empty one are both falsy, and both are the empty string here.
\<close>

record AuthenticationResult =
  response_accessToken :: string
  expiresOn :: "int option"
  scopes :: "string list option"

record AccountInfo =
  homeAccountId :: string

text \<open>
  The behaviour of the \<^verbatim>\<open>ConfidentialClientApplication\<close> at one call of the code:
  what each method answers to each request. A \<^verbatim>\<open>null\<close> answer is \<open>Resolves None\<close>.
\<close>

record ConfidentialClientApplication =
  getAuthCodeUrl :: "string list \<Rightarrow> string \<Rightarrow> string \<Rightarrow> string awaited"
  acquireTokenByCode :: "string \<Rightarrow> string list \<Rightarrow> string \<Rightarrow> AuthenticationResult option awaited"
  getAllAccounts :: "AccountInfo list option awaited"
  acquireTokenByRefreshToken :: "string \<Rightarrow> string list \<Rightarrow> AuthenticationResult option awaited"

text \<open>The calls made on the provider client, logged in the order they are made.\<close>

datatype msal_call =
    GetAuthCodeUrl "string list" string string
  | AcquireTokenByCode string "string list" string
  | GetAllAccounts
  | AcquireTokenByRefreshToken string "string list"

text \<open>\<^verbatim>\<open>Array.prototype.join\<close> on an array of strings.\<close>

fun join :: "string \<Rightarrow> string list \<Rightarrow> string" where
  "join sep [] = []"
| "join sep [x] = x"
| "join sep (x # y # ys) = x @ sep @ join sep (y # ys)"

section \<open>SecureOAuthClient (auth/secure-oauth-client.ts)\<close>

record StateEntry =
  timestamp :: int
  codeVerifier :: "string option"

datatype AuthorizationUrl = AuthorizationUrl (url: string) (state: string)

text \<open>
  \<^verbatim>\<open>SecureOAuthClient\<close> and \<^verbatim>\<open>TokenRefresher\<close> both hold the injected token manager
  and a provider client of their own; \<open>AuthObject\<close> has these two fields, the provider
  client as the log of the calls made on it. \<^verbatim>\<open>SecureOAuthClient\<close> adds the state
  registry, a \<^verbatim>\<open>Map\<close> from state token to entry.
  \<open>Date.now()\<close> is the parameter \<open>now\<close> of each method, one value for each stretch of
  code that runs without suspending; the random state token is a parameter too, and
  so is the configuration, which the constructor has found loaded. Logging is left
  out.
\<close>

record AuthObject =
  tokenManager :: ITokenManager
  msalCalls :: "msal_call list"

record SecureOAuthClient = AuthObject +
  stateStore :: "(string, StateEntry) fmap"

text \<open>The constructor: an empty registry, no call made yet.\<close>

definition new_client :: "ITokenManager \<Rightarrow> SecureOAuthClient" where
  "new_client tm = \<lparr>tokenManager = tm, msalCalls = [], stateStore = fmempty\<rparr>"

definition client_scopes :: "string list" where
  "client_scopes = [''Tasks.Read'', ''User.Read'', ''offline_access'']"

text \<open>
  \<^verbatim>\<open>validateState\<close>: returns whether the state is valid and removes it from the registry.
\<close>

definition validateState ::
  "Environment \<Rightarrow> int \<Rightarrow> string \<Rightarrow> SecureOAuthClient \<Rightarrow> bool \<times> SecureOAuthClient" where
  "validateState config now st this =
     (case fmlookup (stateStore this) st of
        None \<Rightarrow> (False, this)
      | Some stored \<Rightarrow>
          (let maxAge = STATE_TIMEOUT_MINUTES config * 60 * 1000;
               isValid = (now - timestamp stored < maxAge)
           in (isValid, this\<lparr>stateStore := fmdrop st (stateStore this)\<rparr>)))"

text \<open>
  \<^verbatim>\<open>cleanExpiredStates\<close>: the loop visits every entry of the map and deletes those with
  \<^verbatim>\<open>now - entry.timestamp > maxAge\<close>; the entries it leaves are the others.
\<close>

definition cleanExpiredStates :: "Environment \<Rightarrow> int \<Rightarrow> SecureOAuthClient \<Rightarrow> SecureOAuthClient" where
  "cleanExpiredStates config now this =
     (let maxAge = STATE_TIMEOUT_MINUTES config * 60 * 1000
      in this\<lparr>stateStore :=
           fmfilter (\<lambda>st. case fmlookup (stateStore this) st of
                            None \<Rightarrow> False
                          | Some entry \<Rightarrow> \<not> (now - timestamp entry > maxAge))
                    (stateStore this)\<rparr>)"

definition getStateCount :: "SecureOAuthClient \<Rightarrow> nat" where
  "getStateCount this = fcard (fmdom (stateStore this))"

text \<open>
  \<^verbatim>\<open>generateAuthUrl\<close>: \<open>st\<close> is the value of \<^verbatim>\<open>crypto.randomBytes(32).toString('hex')\<close>.
\<close>

definition generateAuthUrl ::
  "Environment \<Rightarrow> ConfidentialClientApplication \<Rightarrow> int \<Rightarrow> string \<Rightarrow> SecureOAuthClient
     \<Rightarrow> (error + AuthorizationUrl) \<times> SecureOAuthClient" where
  "generateAuthUrl config msalClient now st this =
     (let this1 = this\<lparr>stateStore :=
                    fmupd st \<lparr>timestamp = now, codeVerifier = None\<rparr> (stateStore this)\<rparr>;
          this2 = cleanExpiredStates config now this1;
          this3 = this2\<lparr>msalCalls := msalCalls this2 @
                    [GetAuthCodeUrl client_scopes (AZURE_REDIRECT_URI config) st]\<rparr>
      in case getAuthCodeUrl msalClient client_scopes (AZURE_REDIRECT_URI config) st of
           Rejects \<Rightarrow> (Inl (AuthenticationError ''Failed to generate authorization URL''), this3)
         | Resolves u \<Rightarrow> (Inr (AuthorizationUrl u st), this3))"

text \<open>
  \<^verbatim>\<open>handleCallback\<close>: \<open>now\<close> is the clock when the method is entered, \<open>now'\<close> the
  clock when the token set is built, after the two awaited provider calls, and
  \<open>storage\<close> is what the token manager does with the write. Every throw inside the
  \<^verbatim>\<open>try\<close> block, that of \<^verbatim>\<open>storeTokens\<close> too, is caught by its \<^verbatim>\<open>catch\<close> and replaced
  by the one \<^verbatim>\<open>AuthenticationError\<close>. \<^verbatim>\<open>a || b\<close> gives \<open>b\<close> when \<open>a\<close> is \<^verbatim>\<open>undefined\<close>, 0 or
  the empty string.
\<close>

definition handleCallback ::
  "Environment \<Rightarrow> ConfidentialClientApplication \<Rightarrow> storing \<Rightarrow> int \<Rightarrow> int \<Rightarrow> string
     \<Rightarrow> string \<Rightarrow> SecureOAuthClient \<Rightarrow> (error + unit) \<times> SecureOAuthClient" where
  "handleCallback config msalClient storage now now' code st this =
     (case validateState config now st this of
        (False, this1) \<Rightarrow> (Inl (AuthorizationError ''Invalid or expired state token''), this1)
      | (True, this1) \<Rightarrow>
          (let failed = Inl (AuthenticationError ''Failed to complete authentication'');
               this2 = this1\<lparr>msalCalls := msalCalls this1 @
                         [AcquireTokenByCode code client_scopes (AZURE_REDIRECT_URI config)]\<rparr>
           in case acquireTokenByCode msalClient code client_scopes (AZURE_REDIRECT_URI config) of
                Rejects \<Rightarrow> (failed, this2)
              | Resolves None \<Rightarrow> (failed, this2)
              | Resolves (Some response) \<Rightarrow>
                  if response_accessToken response = [] then (failed, this2)
                  else
                    (let this3 = this2\<lparr>msalCalls := msalCalls this2 @ [GetAllAccounts]\<rparr>
                     in case getAllAccounts msalClient of
                          Rejects \<Rightarrow> (failed, this3)
                        | Resolves None \<Rightarrow> (failed, this3)
                        | Resolves (Some []) \<Rightarrow> (failed, this3)
                        | Resolves (Some (account # _)) \<Rightarrow>
                            (let tokens = \<lparr>
                                   accessToken = response_accessToken response,
                                   refreshToken = homeAccountId account,
                                   expiresAt =
                                     (case expiresOn response of
                                        None \<Rightarrow> now' + 3600000
                                      | Some t \<Rightarrow> if t = 0 then now' + 3600000 else t),
                                   scope =
                                     (case scopes response of
                                        None \<Rightarrow> join '' '' client_scopes
                                      | Some ss \<Rightarrow>
                                          if join '' '' ss = [] then join '' '' client_scopes
                                          else join '' '' ss)\<rparr>
                             in case storeTokens storage tokens (tokenManager this3) of
                                  (Inl e, tm) \<Rightarrow> (failed, this3\<lparr>tokenManager := tm\<rparr>)
                                | (Inr u, tm) \<Rightarrow> (Inr (), this3\<lparr>tokenManager := tm\<rparr>)))))"

text \<open>The timeout in milliseconds, as both methods compute it.\<close>

abbreviation maxAge :: "Environment \<Rightarrow> int" where
  "maxAge config \<equiv> STATE_TIMEOUT_MINUTES config * 60 * 1000"

subsection \<open>Sequences of calls on one client\<close>

text \<open>
  The calls that reach the registry: the two public methods, and \<^verbatim>\<open>cleanExpiredStates\<close>
  run by the interval timer of \<^verbatim>\<open>startStateCleanup\<close>. \<open>run_ops\<close> makes the calls of
  a list one after the other; \<open>issues tok\<close> holds of a call that registers the token
  \<open>tok\<close>, \<open>mentions tok\<close> of a call that registers or presents it, and \<open>op_time\<close> is
  the clock at the call.
\<close>

datatype client_op =
    Op_generateAuthUrl ConfidentialClientApplication int string
  | Op_handleCallback ConfidentialClientApplication storing int int string string
  | Op_cleanExpiredStates int

fun apply_op :: "Environment \<Rightarrow> client_op \<Rightarrow> SecureOAuthClient \<Rightarrow> SecureOAuthClient" where
  "apply_op config (Op_generateAuthUrl msalClient now st) this =
     snd (generateAuthUrl config msalClient now st this)"
| "apply_op config (Op_handleCallback msalClient storage now now' code st) this =
     snd (handleCallback config msalClient storage now now' code st this)"
| "apply_op config (Op_cleanExpiredStates now) this = cleanExpiredStates config now this"

fun run_ops :: "Environment \<Rightarrow> client_op list \<Rightarrow> SecureOAuthClient \<Rightarrow> SecureOAuthClient" where
  "run_ops config [] this = this"
| "run_ops config (op # ops) this = run_ops config ops (apply_op config op this)"

fun issues :: "string \<Rightarrow> client_op \<Rightarrow> bool" where
  "issues tok (Op_generateAuthUrl msalClient now st) = (st = tok)"
| "issues tok (Op_handleCallback msalClient storage now now' code st) = False"
| "issues tok (Op_cleanExpiredStates now) = False"

fun mentions :: "string \<Rightarrow> client_op \<Rightarrow> bool" where
  "mentions tok (Op_generateAuthUrl msalClient now st) = (st = tok)"
| "mentions tok (Op_handleCallback msalClient storage now now' code st) = (st = tok)"
| "mentions tok (Op_cleanExpiredStates now) = False"

fun op_time :: "client_op \<Rightarrow> int" where
  "op_time (Op_generateAuthUrl msalClient now st) = now"
| "op_time (Op_handleCallback msalClient storage now now' code st) = now"
| "op_time (Op_cleanExpiredStates now) = now"

section \<open>TokenRefresher (auth/token-refresher.ts)\<close>

text \<open>
  \<^verbatim>\<open>refreshPromise\<close> is \<^verbatim>\<open>null\<close> or the promise of the refresh in flight; a promise is
  named by a number.
\<close>

record TokenRefresher = AuthObject +
  refreshPromise :: "nat option"

text \<open>The constructor: no refresh in flight, no call made yet.\<close>

definition new_refresher :: "ITokenManager \<Rightarrow> TokenRefresher" where
  "new_refresher tm = \<lparr>tokenManager = tm, msalCalls = [], refreshPromise = None\<rparr>"

definition expiryBuffer :: int where
  "expiryBuffer = 5 * 60 * 1000"

definition refresh_scopes :: "string list" where
  "refresh_scopes = [''Tasks.Read'', ''User.Read'']"

text \<open>
  How a call of an \<^verbatim>\<open>async\<close> method ends: it throws, it returns a value, or it
  returns a promise, whose outcome becomes its own.
\<close>

datatype 'a settles = Throws error | Returns 'a | ReturnsPromise nat

text \<open>
  \<^verbatim>\<open>refreshAccessToken\<close>, in two parts. The first logs the exchange and awaits the
  provider's answer. \<open>refreshAccessToken_settle\<close> is the rest, run when the answer has
  arrived, at clock \<open>now\<close>. A rejected exchange and a \<^verbatim>\<open>null\<close> answer go to the
  \<^verbatim>\<open>catch\<close> block, which clears the token manager and throws the one
  \<^verbatim>\<open>AuthenticationError\<close>. Any other answer is written to the token manager and its
  access token is returned.
\<close>

definition refreshAccessToken_settle ::
  "int \<Rightarrow> AuthenticationResult option awaited \<Rightarrow> TokenRefresher \<Rightarrow> (error + string) \<times> TokenRefresher" where
  "refreshAccessToken_settle now answer this =
     (let expired = Inl (AuthenticationError ''Session expired. Please re-authenticate.'')
      in case answer of
           Rejects \<Rightarrow> (expired, this\<lparr>tokenManager := clearTokens (tokenManager this)\<rparr>)
         | Resolves None \<Rightarrow> (expired, this\<lparr>tokenManager := clearTokens (tokenManager this)\<rparr>)
         | Resolves (Some response) \<Rightarrow>
             (Inr (response_accessToken response),
              this\<lparr>tokenManager :=
                updateAccessToken (response_accessToken response)
                  (case expiresOn response of
                     None \<Rightarrow> now + 3600000
                   | Some t \<Rightarrow> if t = 0 then now + 3600000 else t)
                  (tokenManager this)\<rparr>))"

definition refreshAccessToken ::
  "ConfidentialClientApplication \<Rightarrow> int \<Rightarrow> string \<Rightarrow> TokenRefresher \<Rightarrow> (error + string) \<times> TokenRefresher" where
  "refreshAccessToken msalClient now refreshTok this =
     refreshAccessToken_settle now
       (acquireTokenByRefreshToken msalClient refreshTok refresh_scopes)
       (this\<lparr>msalCalls := msalCalls this @
          [AcquireTokenByRefreshToken refreshTok refresh_scopes]\<rparr>)"

text \<open>
  \<^verbatim>\<open>getValidAccessToken\<close>, called at clock \<open>now\<close> and run to its end with no other
  call in between; \<open>now'\<close> is the clock when the provider's answer has arrived. The
  marker \<^verbatim>\<open>refreshPromise\<close> is set while the refresh is awaited, and \<^verbatim>\<open>finally\<close> sets
  it back to \<^verbatim>\<open>null\<close>.
\<close>

definition getValidAccessToken ::
  "ConfidentialClientApplication \<Rightarrow> int \<Rightarrow> int \<Rightarrow> TokenRefresher \<Rightarrow> string settles \<times> TokenRefresher" where
  "getValidAccessToken msalClient now now' this =
     (case getTokens (tokenManager this) of
        Inl e \<Rightarrow> (Throws e, this)
      | Inr tokens \<Rightarrow>
          if expiresAt tokens - now > expiryBuffer then (Returns (accessToken tokens), this)
          else
            (case refreshPromise this of
               Some p \<Rightarrow> (ReturnsPromise p, this)
             | None \<Rightarrow>
                 (case refreshAccessToken msalClient now' (refreshToken tokens) this of
                    (Inl e, this1) \<Rightarrow> (Throws e, this1\<lparr>refreshPromise := None\<rparr>)
                  | (Inr newAccessToken, this1) \<Rightarrow>
                      (Returns newAccessToken, this1\<lparr>refreshPromise := None\<rparr>))))"

section \<open>Interleaved calls of getValidAccessToken\<close>

text \<open>
  The calls of an \<^verbatim>\<open>async\<close> method run on one thread and give way to each other only
  where they \<^verbatim>\<open>await\<close>. \<^verbatim>\<open>getValidAccessToken\<close> awaits the token manager's
  \<^verbatim>\<open>getTokens\<close> and then \<^verbatim>\<open>this.refreshPromise\<close>; \<^verbatim>\<open>refreshAccessToken\<close> awaits the
  provider's answer and then the token manager's \<^verbatim>\<open>updateAccessToken\<close> or
  \<^verbatim>\<open>clearTokens\<close>. A \<open>refresh_task\<close> says where a call of \<^verbatim>\<open>refreshAccessToken\<close>
  stands: awaiting the provider, which will give the recorded answer; awaiting the
  token manager, after which it returns or throws the recorded result; or settled. The
  promise of the call is settled when the task is.
\<close>

datatype refresh_task =
    AwaitExchange "AuthenticationResult option awaited"
  | AwaitStore "error + string"
  | Settled "error + string"

text \<open>
  Where a call of \<^verbatim>\<open>getValidAccessToken\<close> stands: awaiting \<^verbatim>\<open>getTokens\<close>, which will
  give the recorded result; awaiting, inside \<^verbatim>\<open>try\<close>, the refresh promise that it
  created; having returned the refresh promise that it found in the marker, so that
  it settles as that promise does; or finished. The token manager is read when
  \<^verbatim>\<open>getTokens\<close> is called, and the call is handed the token set as a value: what the
  token manager is told later does not change it.
\<close>

datatype caller =
    AwaitGetTokens "error + TokenSet"
  | AwaitRefresh nat
  | ReturnedPromise nat
  | Finished "error + string"

text \<open>
  The object, the refresh promises created so far (promise \<open>p\<close> is at index \<open>p\<close>) and
  the calls made so far.
\<close>

record runtime =
  refresher :: TokenRefresher
  refreshes :: "refresh_task list"
  callers :: "caller list"

text \<open>
  One event runs one stretch of code from a resumption to the next \<^verbatim>\<open>await\<close>:
  \<^item> \<open>Call\<close>: a new call of \<^verbatim>\<open>getValidAccessToken\<close>, up to \<^verbatim>\<open>await getTokens()\<close>;
  \<^item> \<open>ResumeCall i msalClient now\<close>: call \<open>i\<close> resumes with its token set at clock
    \<open>now\<close>, and returns the cached token, or returns the promise in the marker, or
    starts a refresh (against a provider that behaves as \<open>msalClient\<close>), sets the
    marker and awaits it;
  \<^item> \<open>ExchangeDone p now\<close>: the provider's answer to refresh \<open>p\<close> arrives at clock
    \<open>now\<close>, and the refresh calls the token manager;
  \<^item> \<open>StoreDone p\<close>: the token manager is done, and refresh \<open>p\<close> returns or throws;
  \<^item> \<open>ResumeOwner i\<close>: call \<open>i\<close> resumes from awaiting its settled refresh, and
    \<^verbatim>\<open>finally\<close> sets the marker to \<^verbatim>\<open>null\<close>.
  \<open>step\<close> gives \<open>None\<close> for an event that cannot happen in the state.
\<close>

datatype event =
    Call
  | ResumeCall nat ConfidentialClientApplication int
  | ExchangeDone nat int
  | StoreDone nat
  | ResumeOwner nat

definition start :: "TokenRefresher \<Rightarrow> runtime" where
  "start this = \<lparr>refresher = this, refreshes = [], callers = []\<rparr>"

fun step :: "event \<Rightarrow> runtime \<Rightarrow> runtime option" where
  "step Call rt =
     Some (rt\<lparr>callers := callers rt @ [AwaitGetTokens (getTokens (tokenManager (refresher rt)))]\<rparr>)"
| "step (ResumeCall i msalClient now) rt =
     (if i < length (callers rt) then
        (case callers rt ! i of
           AwaitGetTokens (Inl e) \<Rightarrow> Some (rt\<lparr>callers := (callers rt)[i := Finished (Inl e)]\<rparr>)
         | AwaitGetTokens (Inr tokens) \<Rightarrow>
             if expiresAt tokens - now > expiryBuffer
             then Some (rt\<lparr>callers := (callers rt)[i := Finished (Inr (accessToken tokens))]\<rparr>)
             else
               (case refreshPromise (refresher rt) of
                  Some p \<Rightarrow> Some (rt\<lparr>callers := (callers rt)[i := ReturnedPromise p]\<rparr>)
                | None \<Rightarrow>
                    Some (rt\<lparr>refresher := (refresher rt)\<lparr>
                               msalCalls := msalCalls (refresher rt) @
                                 [AcquireTokenByRefreshToken (refreshToken tokens) refresh_scopes],
                               refreshPromise := Some (length (refreshes rt))\<rparr>,
                             refreshes := refreshes rt @
                               [AwaitExchange (acquireTokenByRefreshToken msalClient
                                                 (refreshToken tokens) refresh_scopes)],
                             callers := (callers rt)[i := AwaitRefresh (length (refreshes rt))]\<rparr>))
         | _ \<Rightarrow> None)
      else None)"
| "step (ExchangeDone p now) rt =
     (if p < length (refreshes rt) then
        (case refreshes rt ! p of
           AwaitExchange answer \<Rightarrow>
             (case refreshAccessToken_settle now answer (refresher rt) of
                (result, this1) \<Rightarrow>
                  Some (rt\<lparr>refresher := this1, refreshes := (refreshes rt)[p := AwaitStore result]\<rparr>))
         | _ \<Rightarrow> None)
      else None)"
| "step (StoreDone p) rt =
     (if p < length (refreshes rt) then
        (case refreshes rt ! p of
           AwaitStore result \<Rightarrow> Some (rt\<lparr>refreshes := (refreshes rt)[p := Settled result]\<rparr>)
         | _ \<Rightarrow> None)
      else None)"
| "step (ResumeOwner i) rt =
     (if i < length (callers rt) then
        (case callers rt ! i of
           AwaitRefresh p \<Rightarrow>
             (if p < length (refreshes rt) then
                (case refreshes rt ! p of
                   Settled result \<Rightarrow>
                     Some (rt\<lparr>refresher := (refresher rt)\<lparr>refreshPromise := None\<rparr>,
                              callers := (callers rt)[i := Finished result]\<rparr>)
                 | _ \<Rightarrow> None)
              else None)
         | _ \<Rightarrow> None)
      else None)"

fun run :: "event list \<Rightarrow> runtime \<Rightarrow> runtime option" where
  "run [] rt = Some rt"
| "run (ev # evs) rt = (case step ev rt of None \<Rightarrow> None | Some rt' \<Rightarrow> run evs rt')"









text \<open>
  At any moment of any interleaving: every refresh other than the one whose promise
  is in the marker is settled, and a call that awaits a refresh awaits the one in the
  marker and is the only call that awaits.
\<close>

definition one_at_a_time :: "runtime \<Rightarrow> bool" where
  "one_at_a_time rt \<longleftrightarrow>
     (\<forall>p<length (refreshes rt). refreshPromise (refresher rt) \<noteq> Some p \<longrightarrow>
        (\<exists>result. refreshes rt ! p = Settled result))
   \<and> (\<forall>i<length (callers rt). \<forall>q. callers rt ! i = AwaitRefresh q \<longrightarrow>
        refreshPromise (refresher rt) = Some q \<and>
        (\<forall>j<length (callers rt). \<forall>q'. callers rt ! j = AwaitRefresh q' \<longrightarrow> j = i))"

section \<open>Example values\<close>

text \<open>
  The configuration of the unit tests, a configuration with a negative timeout (the
  schema, \<^verbatim>\<open>z.coerce.number().default(5)\<close>, has no lower bound), a provider client that
  answers every request the same way, and a stored token set with a given expiry.
\<close>

definition example_config :: Environment where
  "example_config = \<lparr>AZURE_REDIRECT_URI = ''http://localhost:3000/callback'', STATE_TIMEOUT_MINUTES = 5\<rparr>"


definition example_msal :: "string awaited \<Rightarrow> AuthenticationResult option awaited \<Rightarrow> ConfidentialClientApplication" where
  "example_msal authUrl answer =
     \<lparr>getAuthCodeUrl = (\<lambda>_ _ _. authUrl),
      acquireTokenByCode = (\<lambda>_ _ _. answer),
      getAllAccounts = Resolves (Some [\<lparr>homeAccountId = ''test-account-id''\<rparr>]),
      acquireTokenByRefreshToken = (\<lambda>_ _. answer)\<rparr>"

definition example_tokens :: "int \<Rightarrow> TokenSet" where
  "example_tokens expires = \<lparr>accessToken = ''old-token'', refreshToken = ''refresh-token'',
     expiresAt = expires, scope = ''Tasks.Read User.Read''\<rparr>"


definition example_response :: AuthenticationResult where
  "example_response = \<lparr>response_accessToken = ''test-access-token'',
     expiresOn = Some 3601000,
     scopes = Some [''Tasks.Read'', ''User.Read'', ''offline_access'']\<rparr>"

definition example_provider :: ConfidentialClientApplication where
  "example_provider =
     example_msal (Resolves ''https://login.microsoftonline.com/test-tenant-id/authorize'')
       (Resolves (Some example_response))"

text \<open>A client on which the state token \<open>''a1''\<close> was issued at clock 1000.\<close>

definition example_issued :: SecureOAuthClient where
  "example_issued =
     snd (generateAuthUrl example_config example_provider 1000 ''a1'' (new_client None))"




section \<open>The state registry\<close>

subsection \<open>What each method does to the registry\<close>

lemma fst_validateState:
  "fst (validateState config now st this) =
     (case fmlookup (stateStore this) st of
        None \<Rightarrow> False
      | Some stored \<Rightarrow> now - timestamp stored < maxAge config)"
  by (simp add: validateState_def Let_def split: option.splits)

lemma snd_validateState:
  "snd (validateState config now st this) = this\<lparr>stateStore := fmdrop st (stateStore this)\<rparr>"
  by (simp add: validateState_def Let_def fmdrop_idle fmdom_notI split: option.splits)

lemma validateState_absent:
  "fmlookup (stateStore this) st = None \<Longrightarrow> validateState config now st this = (False, this)"
  by (simp add: validateState_def)

lemma lookup_cleanExpiredStates:
  "fmlookup (stateStore (cleanExpiredStates config now this)) k =
     (case fmlookup (stateStore this) k of
        None \<Rightarrow> None
      | Some entry \<Rightarrow> if now - timestamp entry > maxAge config then None else Some entry)"
  by (simp add: cleanExpiredStates_def Let_def split: option.splits)

lemma stateStore_generateAuthUrl:
  "stateStore (snd (generateAuthUrl config msalClient now st this)) =
     stateStore (cleanExpiredStates config now
       (this\<lparr>stateStore := fmupd st \<lparr>timestamp = now, codeVerifier = None\<rparr> (stateStore this)\<rparr>))"
  by (simp add: generateAuthUrl_def Let_def cleanExpiredStates_def split: awaited.splits)

lemma lookup_generateAuthUrl:
  "fmlookup (stateStore (snd (generateAuthUrl config msalClient now st this))) k =
     (if k = st then (if 0 > maxAge config then None
                      else Some \<lparr>timestamp = now, codeVerifier = None\<rparr>)
      else (case fmlookup (stateStore this) k of
              None \<Rightarrow> None
            | Some entry \<Rightarrow> if now - timestamp entry > maxAge config then None else Some entry))"
  by (simp add: stateStore_generateAuthUrl lookup_cleanExpiredStates)

lemma handleCallback_invalid:
  assumes "fst (validateState config now st this) = False"
  shows "handleCallback config msalClient storage now now' code st this =
           (Inl (AuthorizationError ''Invalid or expired state token''),
            this\<lparr>stateStore := fmdrop st (stateStore this)\<rparr>)"
proof -
  have "validateState config now st this =
          (False, this\<lparr>stateStore := fmdrop st (stateStore this)\<rparr>)"
    using assms snd_validateState [of config now st this]
    by (cases "validateState config now st this") simp
  then show ?thesis by (simp add: handleCallback_def)
qed

lemma handleCallback_valid:
  assumes "fst (validateState config now st this) = True"
  shows "fst (handleCallback config msalClient storage now now' code st this) = Inr ()
       \<or> fst (handleCallback config msalClient storage now now' code st this)
            = Inl (AuthenticationError ''Failed to complete authentication'')"
proof -
  obtain this1 where v: "validateState config now st this = (True, this1)"
    using assms by (cases "validateState config now st this") simp
  show ?thesis
    unfolding handleCallback_def v
    by (simp add: Let_def storeTokens_def
          split: awaited.splits option.splits list.splits storing.splits)
qed

lemma stateStore_handleCallback:
  "stateStore (snd (handleCallback config msalClient storage now now' code st this)) =
     fmdrop st (stateStore this)"
proof -
  obtain b this1 where v: "validateState config now st this = (b, this1)"
    by (cases "validateState config now st this")
  then have s: "stateStore this1 = fmdrop st (stateStore this)"
    using snd_validateState [of config now st this] by simp
  show ?thesis
    unfolding handleCallback_def v using s
    by (cases b) (simp_all add: Let_def storeTokens_def
          split: awaited.splits option.splits list.splits storing.splits)
qed

lemmas lookup_ops = lookup_generateAuthUrl stateStore_handleCallback lookup_cleanExpiredStates

subsection \<open>A token through a sequence of calls\<close>

lemma mentions_issues: "\<not> mentions tok op \<Longrightarrow> \<not> issues tok op"
  by (cases op) simp_all

lemma absent_stays_absent:
  "\<forall>op \<in> set ops. \<not> issues tok op \<Longrightarrow> fmlookup (stateStore this) tok = None \<Longrightarrow>
     fmlookup (stateStore (run_ops config ops this)) tok = None"
proof (induction ops arbitrary: this)
  case Nil
  then show ?case by simp
next
  case (Cons op ops)
  have "fmlookup (stateStore (apply_op config op this)) tok = None"
    using Cons.prems by (cases op) (auto simp: lookup_ops)
  with Cons show ?case by simp
qed

lemma entry_after_ops:
  "\<forall>op \<in> set ops. \<not> issues tok op \<Longrightarrow> fmlookup (stateStore this) tok = Some e \<Longrightarrow>
     fmlookup (stateStore (run_ops config ops this)) tok = None \<or>
     fmlookup (stateStore (run_ops config ops this)) tok = Some e"
proof (induction ops arbitrary: this)
  case Nil
  then show ?case by simp
next
  case (Cons op ops)
  have "fmlookup (stateStore (apply_op config op this)) tok = None \<or>
        fmlookup (stateStore (apply_op config op this)) tok = Some e"
    using Cons.prems by (cases op) (auto simp: lookup_ops)
  then show ?case
  proof
    assume "fmlookup (stateStore (apply_op config op this)) tok = None"
    then have "fmlookup (stateStore (run_ops config ops (apply_op config op this))) tok = None"
      using Cons.prems absent_stays_absent by simp
    then show ?thesis by simp
  next
    assume "fmlookup (stateStore (apply_op config op this)) tok = Some e"
    then show ?thesis using Cons by simp
  qed
qed

lemma entry_after_other_ops:
  "\<forall>op \<in> set ops. \<not> mentions tok op \<and> op_time op \<le> now \<Longrightarrow>
   fmlookup (stateStore this) tok = Some e \<Longrightarrow>
     fmlookup (stateStore (run_ops config ops this)) tok = Some e \<or>
     (fmlookup (stateStore (run_ops config ops this)) tok = None \<and>
      now - timestamp e > maxAge config)"
proof (induction ops arbitrary: this)
  case Nil
  then show ?case by simp
next
  case (Cons op ops)
  have ni: "\<forall>op \<in> set ops. \<not> issues tok op"
    using Cons.prems by (simp add: mentions_issues)
  have "fmlookup (stateStore (apply_op config op this)) tok = Some e \<or>
        (fmlookup (stateStore (apply_op config op this)) tok = None \<and>
         now - timestamp e > maxAge config)"
    using Cons.prems by (cases op) (auto simp: lookup_ops)
  then show ?case
  proof
    assume "fmlookup (stateStore (apply_op config op this)) tok = Some e"
    then show ?thesis using Cons by simp
  next
    assume a: "fmlookup (stateStore (apply_op config op this)) tok = None \<and>
               now - timestamp e > maxAge config"
    then have "fmlookup (stateStore (run_ops config ops (apply_op config op this))) tok = None"
      using ni absent_stays_absent by simp
    with a show ?thesis by simp
  qed
qed

subsection \<open>The example client\<close>

lemma example_timeout: "maxAge example_config = 300000"
  by (simp add: example_config_def)


lemma lookup_example_issued:
  "fmlookup (stateStore example_issued) k =
     (if k = ''a1'' then Some \<lparr>timestamp = 1000, codeVerifier = None\<rparr> else None)"
  unfolding example_issued_def lookup_generateAuthUrl example_timeout
  by (simp add: new_client_def)

lemma msalCalls_example_issued:
  "msalCalls example_issued
     = [GetAuthCodeUrl [''Tasks.Read'', ''User.Read'', ''offline_access'']
          ''http://localhost:3000/callback'' ''a1'']"
  by (simp add: example_issued_def generateAuthUrl_def cleanExpiredStates_def new_client_def
        example_config_def client_scopes_def Let_def split: awaited.splits)

lemma tokenManager_example_issued: "tokenManager example_issued = None"
  by (simp add: example_issued_def generateAuthUrl_def cleanExpiredStates_def new_client_def
        Let_def split: awaited.splits)

subsection \<open>Single use\<close>

text \<open>
  Claim C1. A state token \<open>tok\<close> is issued by \<open>generateAuthUrl\<close> at clock \<open>t0\<close>. Other
  calls may follow (\<open>ops1\<close>: none of them issues or presents \<open>tok\<close>, none is later than
  \<open>now\<close>). The first validation of \<open>tok\<close>, at clock \<open>now\<close>, returns true exactly when
  the age \<open>now - t0\<close> is below the timeout, and removes the entry. After it, whatever
  calls follow that do not issue \<open>tok\<close> again (\<open>ops2\<close>), a validation of \<open>tok\<close> returns
  false. Correspondingly a first \<open>handleCallback\<close> with \<open>tok\<close> fails with
  \<open>AuthorizationError\<close> exactly when the age is not below the timeout, and a second
  one fails with \<open>AuthorizationError\<close> whatever the first did.
\<close>

theorem state_token_single_use:
  assumes issue: "generateAuthUrl config msalClient t0 tok this0 = (res, this1)"
    and before: "\<forall>op \<in> set ops1. \<not> mentions tok op \<and> op_time op \<le> now"
    and clock: "t0 \<le> now"
    and after: "\<forall>op \<in> set ops2. \<not> issues tok op"
  shows "fst (validateState config now tok (run_ops config ops1 this1)) = (now - t0 < maxAge config)
       \<and> fmlookup (stateStore (snd (validateState config now tok (run_ops config ops1 this1)))) tok
           = None
       \<and> fst (validateState config now2 tok
                (run_ops config ops2 (snd (validateState config now tok (run_ops config ops1 this1)))))
           = False
       \<and> (fst (handleCallback config msalClient1 storage1 now now' code1 tok (run_ops config ops1 this1))
            = Inl (AuthorizationError ''Invalid or expired state token''))
           = (\<not> (now - t0 < maxAge config))
       \<and> fst (handleCallback config msalClient2 storage2 now2 now2' code2 tok
                (run_ops config ops2
                   (snd (handleCallback config msalClient1 storage1 now now' code1 tok
                           (run_ops config ops1 this1)))))
           = Inl (AuthorizationError ''Invalid or expired state token'')"
proof -
  let ?e = "\<lparr>timestamp = t0, codeVerifier = None\<rparr>"
  let ?c = "run_ops config ops1 this1"
  let ?v = "snd (validateState config now tok ?c)"
  let ?h = "snd (handleCallback config msalClient1 storage1 now now' code1 tok ?c)"
  have this1: "this1 = snd (generateAuthUrl config msalClient t0 tok this0)"
    using issue by simp
  have l1: "fmlookup (stateStore this1) tok = (if 0 > maxAge config then None else Some ?e)"
    unfolding this1 by (simp add: lookup_generateAuthUrl)
  have ni: "\<forall>op \<in> set ops1. \<not> issues tok op"
    using before by (simp add: mentions_issues)
  have valid: "fst (validateState config now tok ?c) = (now - t0 < maxAge config)"
  proof (cases "0 > maxAge config")
    case True
    then have "fmlookup (stateStore ?c) tok = None"
      using l1 ni absent_stays_absent by simp
    then show ?thesis using True clock by (simp add: fst_validateState)
  next
    case False
    then have "fmlookup (stateStore this1) tok = Some ?e" using l1 by simp
    from entry_after_other_ops [OF before this, of config]
    show ?thesis by (auto simp: fst_validateState)
  qed
  have gone: "fmlookup (stateStore ?v) tok = None"
    by (simp add: snd_validateState)
  have "fmlookup (stateStore (run_ops config ops2 ?v)) tok = None"
    using after gone by (rule absent_stays_absent)
  then have again: "fst (validateState config now2 tok (run_ops config ops2 ?v)) = False"
    by (simp add: fst_validateState)
  have first: "(fst (handleCallback config msalClient1 storage1 now now' code1 tok ?c)
            = Inl (AuthorizationError ''Invalid or expired state token''))
           = (\<not> (now - t0 < maxAge config))"
  proof (cases "now - t0 < maxAge config")
    case True
    then have "fst (validateState config now tok ?c) = True" using valid by simp
    from handleCallback_valid [OF this, of msalClient1 storage1 now' code1]
    show ?thesis using True by auto
  next
    case False
    then have "fst (validateState config now tok ?c) = False" using valid by simp
    then show ?thesis using False by (simp add: handleCallback_invalid)
  qed
  have "fmlookup (stateStore ?h) tok = None"
    by (simp add: stateStore_handleCallback)
  then have "fmlookup (stateStore (run_ops config ops2 ?h)) tok = None"
    using after absent_stays_absent by simp
  then have "fst (validateState config now2 tok (run_ops config ops2 ?h)) = False"
    by (simp add: fst_validateState)
  then have second: "fst (handleCallback config msalClient2 storage2 now2 now2' code2 tok (run_ops config ops2 ?h))
           = Inl (AuthorizationError ''Invalid or expired state token'')"
    by (simp add: handleCallback_invalid)
  from valid gone again first second show ?thesis by blast
qed

text \<open>
  The token \<open>''a1''\<close> issued at clock 1000; another token is issued and the timer sweeps;
  \<open>''a1''\<close> comes back at clock 61000, one minute old, and passes the check; the timer
  sweeps and the other token is presented; \<open>''a1''\<close> is presented again at clock 70000.
\<close>

theorem state_token_single_use_witness:
  "fst (validateState example_config 61000 ''a1''
          (run_ops example_config
             [Op_generateAuthUrl example_provider 2000 ''b2'', Op_cleanExpiredStates 60000]
             example_issued))
   \<and> fst (handleCallback example_config example_provider Accepts 61000 61001 ''test-code'' ''a1''
          (run_ops example_config
             [Op_generateAuthUrl example_provider 2000 ''b2'', Op_cleanExpiredStates 60000]
             example_issued))
       \<noteq> Inl (AuthorizationError ''Invalid or expired state token'')
   \<and> fst (handleCallback example_config example_provider Accepts 70000 70001 ''test-code'' ''a1''
            (run_ops example_config
               [Op_cleanExpiredStates 62000,
                Op_handleCallback example_provider Accepts 63000 63001 ''test-code'' ''b2'']
               (snd (handleCallback example_config example_provider Accepts 61000 61001 ''test-code'' ''a1''
                  (run_ops example_config
                     [Op_generateAuthUrl example_provider 2000 ''b2'', Op_cleanExpiredStates 60000]
                     example_issued)))))
       = Inl (AuthorizationError ''Invalid or expired state token'')"
proof -
  let ?ops1 = "[Op_generateAuthUrl example_provider 2000 ''b2'', Op_cleanExpiredStates 60000]"
  let ?ops2 = "[Op_cleanExpiredStates 62000,
                Op_handleCallback example_provider Accepts 63000 63001 ''test-code'' ''b2'']"
  let ?g = "generateAuthUrl example_config example_provider 1000 ''a1'' (new_client None)"
  have 1: "?g = (fst ?g, example_issued)"
    by (simp add: example_issued_def)
  have 2: "\<forall>op \<in> set ?ops1. \<not> mentions ''a1'' op \<and> op_time op \<le> 61000"
    by simp
  have 3: "(1000::int) \<le> 61000"
    by simp
  have 4: "\<forall>op \<in> set ?ops2. \<not> issues ''a1'' op"
    by simp
  show ?thesis
    using state_token_single_use [OF 1 2 3 4,
            of 70000 example_provider Accepts 61001 "''test-code''" example_provider Accepts 70001
               "''test-code''"]
    unfolding example_timeout by simp
qed

subsection \<open>Expiry\<close>

text \<open>
  Claim C4. A state token \<open>tok\<close> is issued at clock \<open>t0\<close>, and any calls follow that do
  not issue it again. A validation at a clock \<open>now\<close> with \<open>now - t0\<close> above the timeout
  returns false; and after a validation at any clock \<open>now'\<close>, whatever it returned, the
  registry has no entry for \<open>tok\<close>.
\<close>

theorem expired_state_rejected_and_consumed:
  assumes issue: "generateAuthUrl config msalClient t0 tok this0 = (res, this1)"
    and between: "\<forall>op \<in> set ops. \<not> issues tok op"
    and late: "now - t0 > maxAge config"
  shows "fst (validateState config now tok (run_ops config ops this1)) = False
       \<and> (\<forall>now'. fmlookup (stateStore (snd (validateState config now' tok
                      (run_ops config ops this1)))) tok = None)"
proof -
  let ?e = "\<lparr>timestamp = t0, codeVerifier = None\<rparr>"
  have this1: "this1 = snd (generateAuthUrl config msalClient t0 tok this0)"
    using issue by simp
  have "fmlookup (stateStore this1) tok = None \<or> fmlookup (stateStore this1) tok = Some ?e"
    unfolding this1 by (simp add: lookup_generateAuthUrl)
  then have "fmlookup (stateStore (run_ops config ops this1)) tok = None \<or>
             fmlookup (stateStore (run_ops config ops this1)) tok = Some ?e"
    using between absent_stays_absent entry_after_ops by blast
  then have "fst (validateState config now tok (run_ops config ops this1)) = False"
    using late by (auto simp: fst_validateState)
  then show ?thesis by (simp add: snd_validateState)
qed

text \<open>
  The token \<open>''a1''\<close> issued at clock 1000 and presented at clock 301001, one millisecond
  more than five minutes later, with no sweep in between.
\<close>

theorem expired_state_rejected_and_consumed_witness:
  "301001 - 1000 > maxAge example_config
   \<and> fmlookup (stateStore example_issued) ''a1'' = Some \<lparr>timestamp = 1000, codeVerifier = None\<rparr>
   \<and> fst (validateState example_config 301001 ''a1'' example_issued) = False
   \<and> fmlookup (stateStore (snd (validateState example_config 301001 ''a1'' example_issued))) ''a1''
       = None"
proof -
  let ?g = "generateAuthUrl example_config example_provider 1000 ''a1'' (new_client None)"
  have 1: "?g = (fst ?g, example_issued)"
    by (simp add: example_issued_def)
  have 2: "\<forall>op \<in> set []. \<not> issues ''a1'' op"
    by simp
  have 3: "301001 - 1000 > maxAge example_config"
    unfolding example_timeout by simp
  have 4: "fmlookup (stateStore example_issued) ''a1'' = Some \<lparr>timestamp = 1000, codeVerifier = None\<rparr>"
    by (simp add: lookup_example_issued)
  show ?thesis
    using expired_state_rejected_and_consumed [OF 1 2 3] 3 4 by simp
qed

subsection \<open>An invalid state stops the callback\<close>

text \<open>
  Claim C5. When the registry has no entry for the presented state (it was never
  issued, or it was consumed or swept), or has one whose age has reached the timeout,
  \<open>handleCallback\<close> fails with \<open>AuthorizationError\<close>, the log of provider calls is as
  it was before the call, and so is the token manager. The same holds when the state
  is presented a second time.
\<close>

theorem invalid_state_no_network_call:
  assumes "fmlookup (stateStore this) st = None \<or>
           (\<exists>e. fmlookup (stateStore this) st = Some e \<and> maxAge config \<le> now - timestamp e)"
  shows "fst (handleCallback config msalClient storage now now' code st this)
           = Inl (AuthorizationError ''Invalid or expired state token'')
       \<and> msalCalls (snd (handleCallback config msalClient storage now now' code st this)) = msalCalls this
       \<and> tokenManager (snd (handleCallback config msalClient storage now now' code st this))
           = tokenManager this
       \<and> fst (handleCallback config msalClient2 storage2 now2 now2' code2 st
                (snd (handleCallback config msalClient storage now now' code st this)))
           = Inl (AuthorizationError ''Invalid or expired state token'')
       \<and> msalCalls (snd (handleCallback config msalClient2 storage2 now2 now2' code2 st
                (snd (handleCallback config msalClient storage now now' code st this))))
           = msalCalls this"
proof -
  let ?this1 = "snd (handleCallback config msalClient storage now now' code st this)"
  have "fst (validateState config now st this) = False"
    using assms by (auto simp: fst_validateState)
  then have 1: "handleCallback config msalClient storage now now' code st this =
           (Inl (AuthorizationError ''Invalid or expired state token''),
            this\<lparr>stateStore := fmdrop st (stateStore this)\<rparr>)"
    by (rule handleCallback_invalid)
  have "fmlookup (stateStore ?this1) st = None"
    by (simp add: stateStore_handleCallback)
  then have "fst (validateState config now2 st ?this1) = False"
    by (simp add: fst_validateState)
  then have 2: "handleCallback config msalClient2 storage2 now2 now2' code2 st ?this1 =
           (Inl (AuthorizationError ''Invalid or expired state token''),
            ?this1\<lparr>stateStore := fmdrop st (stateStore ?this1)\<rparr>)"
    by (rule handleCallback_invalid)
  show ?thesis unfolding 2 unfolding 1 by simp
qed

text \<open>
  The token \<open>''a1''\<close> issued at clock 1000 is presented six minutes later, to a provider
  that would have answered the exchange: the only call in the log is the one that
  \<open>generateAuthUrl\<close> made.
\<close>

theorem invalid_state_no_network_call_witness:
  "fst (handleCallback example_config example_provider Accepts 361000 361001 ''test-code'' ''a1''
          example_issued)
     = Inl (AuthorizationError ''Invalid or expired state token'')
   \<and> msalCalls (snd (handleCallback example_config example_provider Accepts 361000 361001 ''test-code''
                      ''a1'' example_issued))
       = [GetAuthCodeUrl [''Tasks.Read'', ''User.Read'', ''offline_access'']
            ''http://localhost:3000/callback'' ''a1'']"
proof -
  have 1: "fmlookup (stateStore example_issued) ''a1'' = None \<or>
           (\<exists>e. fmlookup (stateStore example_issued) ''a1'' = Some e \<and>
                maxAge example_config \<le> 361000 - timestamp e)"
    unfolding example_timeout by (simp add: lookup_example_issued)
  show ?thesis
    using invalid_state_no_network_call [OF 1, of example_provider Accepts 361001 "''test-code''"]
    by (simp add: msalCalls_example_issued)
qed

subsection \<open>Issuing sweeps\<close>

lemma getStateCount_singleton:
  assumes "\<And>k. fmlookup (stateStore this) k = (if k = st then Some e else None)"
  shows "getStateCount this = 1"
proof -
  have "stateStore this = fmupd st e fmempty"
    by (rule fmap_ext) (simp add: assms)
  then show ?thesis by (simp add: getStateCount_def fcard_finsert_if)
qed

lemma timestamps_generateAuthUrl:
  assumes "\<And>k e. fmlookup (stateStore this) k = Some e \<Longrightarrow> timestamp e \<le> T" and "T \<le> now"
    and "fmlookup (stateStore (snd (generateAuthUrl config msalClient now st this))) k = Some e"
  shows "timestamp e \<le> now"
  using assms(3) assms(1) [of k e] assms(2)
  by (auto simp: lookup_generateAuthUrl split: if_splits option.splits)

text \<open>
  Claim C8. After \<open>generateAuthUrl\<close> at clock \<open>now\<close>, whether the provider answered or
  not, the registry has no entry older than the timeout. And with the timeout of five
  minutes: three states issued on a new client at clocks \<open>t1 \<le> t2 \<le> t3\<close>, then a
  fourth at a clock \<open>t4\<close> more than five minutes after \<open>t3\<close>, leave a registry of
  exactly one entry.
\<close>

theorem issue_sweeps_expired:
  "(\<forall>k e. fmlookup (stateStore (snd (generateAuthUrl config msalClient now st this))) k = Some e
        \<longrightarrow> \<not> (now - timestamp e > maxAge config))
   \<and> (STATE_TIMEOUT_MINUTES config = 5 \<and> t1 \<le> t2 \<and> t2 \<le> t3 \<and> t4 - t3 > 5 * 60 * 1000 \<longrightarrow>
        getStateCount
          (snd (generateAuthUrl config msal4 t4 s4
            (snd (generateAuthUrl config msal3 t3 s3
              (snd (generateAuthUrl config msal2 t2 s2
                (snd (generateAuthUrl config msal1 t1 s1 (new_client tm)))))))))
        = 1)"
proof (intro conjI allI impI)
  fix k e
  assume "fmlookup (stateStore (snd (generateAuthUrl config msalClient now st this))) k = Some e"
  then show "\<not> (now - timestamp e > maxAge config)"
    by (auto simp: lookup_generateAuthUrl split: if_splits option.splits)
next
  assume a: "STATE_TIMEOUT_MINUTES config = 5 \<and> t1 \<le> t2 \<and> t2 \<le> t3 \<and> t4 - t3 > 5 * 60 * 1000"
  let ?c1 = "snd (generateAuthUrl config msal1 t1 s1 (new_client tm))"
  let ?c2 = "snd (generateAuthUrl config msal2 t2 s2 ?c1)"
  let ?c3 = "snd (generateAuthUrl config msal3 t3 s3 ?c2)"
  let ?c4 = "snd (generateAuthUrl config msal4 t4 s4 ?c3)"
  have p1: "timestamp e \<le> t1" if "fmlookup (stateStore ?c1) k = Some e" for k e
    using that by (auto simp: lookup_generateAuthUrl new_client_def split: if_splits)
  have p2: "timestamp e \<le> t2" if "fmlookup (stateStore ?c2) k = Some e" for k e
    using timestamps_generateAuthUrl [OF p1 _ that] a by simp
  have p3: "timestamp e \<le> t3" if "fmlookup (stateStore ?c3) k = Some e" for k e
    using timestamps_generateAuthUrl [OF p2 _ that] a by simp
  have "fmlookup (stateStore ?c4) k =
          (if k = s4 then Some \<lparr>timestamp = t4, codeVerifier = None\<rparr> else None)" for k
  proof (cases "fmlookup (stateStore ?c3) k")
    case None
    then show ?thesis using a by (simp add: lookup_generateAuthUrl [of config msal4])
  next
    case (Some e)
    then have "timestamp e \<le> t3" by (rule p3)
    then show ?thesis using a Some by (simp add: lookup_generateAuthUrl [of config msal4])
  qed
  then show "getStateCount ?c4 = 1" by (rule getStateCount_singleton)
qed

text \<open>
  The scenario of the unit test: three states at clocks 1000, 1001 and 1002, the
  fourth six minutes later; and the one entry left is the fourth.
\<close>

theorem issue_sweeps_expired_witness:
  "getStateCount
     (snd (generateAuthUrl example_config example_provider 361002 ''d4''
       (snd (generateAuthUrl example_config example_provider 1002 ''c3''
         (snd (generateAuthUrl example_config example_provider 1001 ''b2''
           (snd (generateAuthUrl example_config example_provider 1000 ''a1'' (new_client None))))))))) = 1
   \<and> \<not> (361002 - timestamp \<lparr>timestamp = 361002, codeVerifier = None\<rparr> > maxAge example_config)"
proof -
  let ?c3 = "snd (generateAuthUrl example_config example_provider 1002 ''c3''
         (snd (generateAuthUrl example_config example_provider 1001 ''b2''
           (snd (generateAuthUrl example_config example_provider 1000 ''a1'' (new_client None))))))"
  have 1: "STATE_TIMEOUT_MINUTES example_config = 5 \<and> (1000::int) \<le> 1001 \<and> (1001::int) \<le> 1002
             \<and> (361002::int) - 1002 > 5 * 60 * 1000"
    by (simp add: example_config_def)
  have 2: "fmlookup (stateStore (snd (generateAuthUrl example_config example_provider 361002 ''d4'' ?c3)))
             ''d4'' = Some \<lparr>timestamp = 361002, codeVerifier = None\<rparr>"
    unfolding lookup_generateAuthUrl example_timeout by simp
  show ?thesis
    using issue_sweeps_expired [of example_config example_provider 361002 "''d4''" ?c3
            1000 1001 1002 361002 example_provider "''d4''" example_provider "''c3''"
            example_provider "''b2''" example_provider "''a1''" None] 1 2
    by blast
qed

subsection \<open>A state orphaned by a failed provider call\<close>








subsection \<open>An entry exactly as old as the timeout\<close>

text \<open>
  Claim C10. For an entry whose age at clock \<open>now\<close> is exactly the timeout, validation
  returns false, and a sweep at that clock keeps the entry: it is in the registry and
  counted. At no later clock does it validate true.
\<close>

theorem boundary_age_entry:
  assumes present: "fmlookup (stateStore this) tok = Some e"
    and boundary: "now - timestamp e = maxAge config"
  shows "fst (validateState config now tok this) = False
       \<and> fmlookup (stateStore (cleanExpiredStates config now this)) tok = Some e
       \<and> tok |\<in>| fmdom (stateStore (cleanExpiredStates config now this))
       \<and> 1 \<le> getStateCount (cleanExpiredStates config now this)
       \<and> (\<forall>later\<ge>now. fst (validateState config later tok
                             (cleanExpiredStates config now this)) = False)"
proof -
  let ?c = "cleanExpiredStates config now this"
  have kept: "fmlookup (stateStore ?c) tok = Some e"
    using present boundary by (simp add: lookup_cleanExpiredStates)
  then have dom: "tok |\<in>| fmdom (stateStore ?c)" by (rule fmdomI)
  have "fcard (fmdom (stateStore ?c)) \<noteq> 0"
    using dom by auto
  then have cnt: "1 \<le> getStateCount ?c" unfolding getStateCount_def by arith
  have "fst (validateState config now tok this) = False"
    using present boundary by (simp add: fst_validateState)
  moreover have "fst (validateState config later tok ?c) = False" if "later \<ge> now" for later
    using kept boundary that by (simp add: fst_validateState)
  ultimately show ?thesis using kept dom cnt by blast
qed

text \<open>The token \<open>''a1''\<close> issued at clock 1000, at clock 301000.\<close>

theorem boundary_age_entry_witness:
  "301000 - 1000 = maxAge example_config
   \<and> fst (validateState example_config 301000 ''a1'' example_issued) = False
   \<and> fmlookup (stateStore (cleanExpiredStates example_config 301000 example_issued)) ''a1''
       = Some \<lparr>timestamp = 1000, codeVerifier = None\<rparr>
   \<and> fst (validateState example_config 301000 ''a1''
            (cleanExpiredStates example_config 301000 example_issued)) = False"
proof -
  have 1: "fmlookup (stateStore example_issued) ''a1'' = Some \<lparr>timestamp = 1000, codeVerifier = None\<rparr>"
    by (simp add: lookup_example_issued)
  have 2: "301000 - timestamp \<lparr>timestamp = 1000, codeVerifier = None\<rparr> = maxAge example_config"
    unfolding example_timeout by simp
  show ?thesis
    using boundary_age_entry [OF 1 2] 2 by simp
qed

section \<open>The callback\<close>

lemma handleCallback_stores:
  assumes entry: "fmlookup (stateStore this) st = Some e"
    and young: "now - timestamp e < maxAge config"
    and exchange: "acquireTokenByCode msalClient code client_scopes (AZURE_REDIRECT_URI config)
                     = Resolves (Some response)"
    and token: "response_accessToken response \<noteq> []"
    and accounts: "getAllAccounts msalClient = Resolves (Some (account # others))"
  shows "handleCallback config msalClient Accepts now now' code st this =
           (Inr (),
            this\<lparr>stateStore := fmdrop st (stateStore this),
                 msalCalls := msalCalls this @
                   [AcquireTokenByCode code client_scopes (AZURE_REDIRECT_URI config),
                    GetAllAccounts],
                 tokenManager := Some
                   \<lparr>accessToken = response_accessToken response,
                    refreshToken = homeAccountId account,
                    expiresAt = (case expiresOn response of
                                   None \<Rightarrow> now' + 3600000
                                 | Some t \<Rightarrow> if t = 0 then now' + 3600000 else t),
                    scope = (case scopes response of
                               None \<Rightarrow> join '' '' client_scopes
                             | Some ss \<Rightarrow>
                                 if join '' '' ss = [] then join '' '' client_scopes
                                 else join '' '' ss)\<rparr>\<rparr>)"
proof -
  have v: "validateState config now st this =
             (True, this\<lparr>stateStore := fmdrop st (stateStore this)\<rparr>)"
    using entry young by (simp add: validateState_def)
  show ?thesis
    unfolding handleCallback_def v
    using exchange token accounts by (simp add: Let_def storeTokens_def)
qed

text \<open>
  When the token manager rejects the write, the \<^verbatim>\<open>catch\<close> of \<open>handleCallback\<close> turns
  the \<open>TokenStorageError\<close> into \<open>AuthenticationError\<close>: the state is consumed, both
  provider calls have been made, and the token manager holds what the failed write
  left.
\<close>

lemma handleCallback_store_fails:
  assumes entry: "fmlookup (stateStore this) st = Some e"
    and young: "now - timestamp e < maxAge config"
    and exchange: "acquireTokenByCode msalClient code client_scopes (AZURE_REDIRECT_URI config)
                     = Resolves (Some response)"
    and token: "response_accessToken response \<noteq> []"
    and accounts: "getAllAccounts msalClient = Resolves (Some (account # others))"
  shows "handleCallback config msalClient (Fails message left) now now' code st this =
           (Inl (AuthenticationError ''Failed to complete authentication''),
            this\<lparr>stateStore := fmdrop st (stateStore this),
                 msalCalls := msalCalls this @
                   [AcquireTokenByCode code client_scopes (AZURE_REDIRECT_URI config),
                    GetAllAccounts],
                 tokenManager := left\<rparr>)"
proof -
  have v: "validateState config now st this =
             (True, this\<lparr>stateStore := fmdrop st (stateStore this)\<rparr>)"
    using entry young by (simp add: validateState_def)
  show ?thesis
    unfolding handleCallback_def v
    using exchange token accounts by (simp add: Let_def storeTokens_def)
qed

text \<open>
  A call that succeeds has passed the state check, has been given a non-empty access
  token, and its write has been accepted.
\<close>

lemma handleCallback_success:
  assumes success: "fst (handleCallback config msalClient storage now now' code st this) = Inr ()"
    and exchange: "acquireTokenByCode msalClient code client_scopes (AZURE_REDIRECT_URI config)
                     = Resolves (Some response)"
  shows "(\<exists>e. fmlookup (stateStore this) st = Some e \<and> now - timestamp e < maxAge config)
       \<and> response_accessToken response \<noteq> []
       \<and> storage = Accepts"
proof -
  obtain b this1 where v: "validateState config now st this = (b, this1)"
    by (cases "validateState config now st this")
  have b: "b"
    using success unfolding handleCallback_def v by (cases b) simp_all
  then have "fst (validateState config now st this) = True"
    using v by simp
  then have 1: "\<exists>e. fmlookup (stateStore this) st = Some e \<and> now - timestamp e < maxAge config"
    by (simp add: fst_validateState split: option.splits)
  have 2: "response_accessToken response \<noteq> []"
    using success b exchange unfolding handleCallback_def v
    by (auto simp: Let_def split: if_splits)
  have 3: "storage = Accepts"
    using success b exchange 2 unfolding handleCallback_def v
    by (cases storage)
       (auto simp: Let_def storeTokens_def split: awaited.splits option.splits list.splits)
  from 1 2 3 show ?thesis by blast
qed

lemma join_client_scopes: "join '' '' client_scopes = ''Tasks.Read User.Read offline_access''"
  by (simp add: client_scopes_def)

text \<open>
  Claim C7, as stated, fails where the provider gives an expiry of 0 (the epoch) and an
  empty list of granted scopes: both are given, neither is absent, the call succeeds,
  and the token set stored has the default expiry (the clock 3000 plus one hour) and
  the requested scopes.
\<close>

theorem callback_token_set_counterexample:
  "acquireTokenByCode
     (example_msal Rejects
        (Resolves (Some \<lparr>response_accessToken = ''test-access-token'', expiresOn = Some 0,
                          scopes = Some []\<rparr>)))
     ''test-code'' client_scopes (AZURE_REDIRECT_URI example_config)
     = Resolves (Some \<lparr>response_accessToken = ''test-access-token'', expiresOn = Some 0,
                        scopes = Some []\<rparr>)
   \<and> fst (validateState example_config 2000 ''a1'' example_issued) = True
   \<and> fst (handleCallback example_config
       (example_msal Rejects
          (Resolves (Some \<lparr>response_accessToken = ''test-access-token'', expiresOn = Some 0,
                            scopes = Some []\<rparr>)))
       Accepts 2000 3000 ''test-code'' ''a1'' example_issued) = Inr ()
   \<and> tokenManager (snd (handleCallback example_config
       (example_msal Rejects
          (Resolves (Some \<lparr>response_accessToken = ''test-access-token'', expiresOn = Some 0,
                            scopes = Some []\<rparr>)))
       Accepts 2000 3000 ''test-code'' ''a1'' example_issued))
     = Some \<lparr>accessToken = ''test-access-token'',
             refreshToken = ''test-account-id'',
             expiresAt = 3603000,
             scope = ''Tasks.Read User.Read offline_access''\<rparr>"
proof -
  let ?r = "\<lparr>response_accessToken = ''test-access-token'', expiresOn = Some 0, scopes = Some []\<rparr>"
  let ?m = "example_msal Rejects (Resolves (Some ?r))"
  have 1: "fmlookup (stateStore example_issued) ''a1'' = Some \<lparr>timestamp = 1000, codeVerifier = None\<rparr>"
    by (simp add: lookup_example_issued)
  have 2: "2000 - timestamp \<lparr>timestamp = 1000, codeVerifier = None\<rparr> < maxAge example_config"
    unfolding example_timeout by simp
  have 3: "acquireTokenByCode ?m ''test-code'' client_scopes (AZURE_REDIRECT_URI example_config)
             = Resolves (Some ?r)"
    by (simp add: example_msal_def)
  have 4: "response_accessToken ?r \<noteq> []"
    by simp
  have 5: "getAllAccounts ?m = Resolves (Some [\<lparr>homeAccountId = ''test-account-id''\<rparr>])"
    by (simp add: example_msal_def)
  have 6: "fst (validateState example_config 2000 ''a1'' example_issued) = True"
    unfolding fst_validateState example_timeout by (simp add: lookup_example_issued)
  show ?thesis
    unfolding handleCallback_stores [OF 1 2 3 4 5] join_client_scopes using 3 6 by simp
qed

text \<open>
  Claim C7, amended. A call of \<open>handleCallback\<close> succeeds; the provider has answered the
  exchange with a response and has at least one account. (A call that succeeds has
  passed the state check and the test of the access token, so the state was valid and
  the access token is not empty: \<open>handleCallback_success\<close>.) Then the token manager
  holds a token set whose access token is the provider's, whose refresh token is the
  first account's \<open>homeAccountId\<close>, whose expiry is the provider's when the provider
  gives one other than 0 and the clock plus one hour otherwise, and whose scope is the
  provider's scopes joined by spaces when that string is not empty and the requested
  scopes \<open>Tasks.Read User.Read offline_access\<close> otherwise.
\<close>

theorem callback_persists_token_set:
  assumes success: "fst (handleCallback config msalClient storage now now' code st this) = Inr ()"
    and exchange: "acquireTokenByCode msalClient code client_scopes (AZURE_REDIRECT_URI config)
                     = Resolves (Some response)"
    and accounts: "getAllAccounts msalClient = Resolves (Some (account # others))"
  shows "\<exists>tokens.
           getTokens (tokenManager (snd (handleCallback config msalClient storage now now' code st this)))
             = Inr tokens
         \<and> accessToken tokens = response_accessToken response
         \<and> refreshToken tokens = homeAccountId account
         \<and> (\<forall>t. expiresOn response = Some t \<and> t \<noteq> 0 \<longrightarrow> expiresAt tokens = t)
         \<and> (expiresOn response = None \<or> expiresOn response = Some 0
              \<longrightarrow> expiresAt tokens = now' + 3600000)
         \<and> (\<forall>ss. scopes response = Some ss \<and> join '' '' ss \<noteq> []
              \<longrightarrow> scope tokens = join '' '' ss)
         \<and> (scopes response = None \<or> (\<exists>ss. scopes response = Some ss \<and> join '' '' ss = [])
              \<longrightarrow> scope tokens = ''Tasks.Read User.Read offline_access'')"
proof -
  let ?tokens = "\<lparr>accessToken = response_accessToken response,
                  refreshToken = homeAccountId account,
                  expiresAt = (case expiresOn response of
                                 None \<Rightarrow> now' + 3600000
                               | Some t \<Rightarrow> if t = 0 then now' + 3600000 else t),
                  scope = (case scopes response of
                             None \<Rightarrow> join '' '' client_scopes
                           | Some ss \<Rightarrow>
                               if join '' '' ss = [] then join '' '' client_scopes
                               else join '' '' ss)\<rparr>"
  from handleCallback_success [OF success exchange]
  obtain e where entry: "fmlookup (stateStore this) st = Some e"
    and young: "now - timestamp e < maxAge config"
    and token: "response_accessToken response \<noteq> []"
    and storage: "storage = Accepts"
    by blast
  note h = handleCallback_stores [OF entry young exchange token accounts, of now']
  have "getTokens (tokenManager (snd (handleCallback config msalClient storage now now' code st this)))
          = Inr ?tokens"
    unfolding storage h by (simp add: getTokens_def)
  moreover have "accessToken ?tokens = response_accessToken response
      \<and> refreshToken ?tokens = homeAccountId account"
    by simp
  moreover have "\<forall>t. expiresOn response = Some t \<and> t \<noteq> 0 \<longrightarrow> expiresAt ?tokens = t"
    by simp
  moreover have "expiresOn response = None \<or> expiresOn response = Some 0
      \<longrightarrow> expiresAt ?tokens = now' + 3600000"
    by auto
  moreover have "\<forall>ss. scopes response = Some ss \<and> join '' '' ss \<noteq> []
      \<longrightarrow> scope ?tokens = join '' '' ss"
    by simp
  moreover have "scopes response = None \<or> (\<exists>ss. scopes response = Some ss \<and> join '' '' ss = [])
      \<longrightarrow> scope ?tokens = ''Tasks.Read User.Read offline_access''"
    unfolding join_client_scopes [symmetric] by auto
  ultimately show ?thesis by blast
qed

text \<open>
  The round trip of the unit test: the state \<open>''a1''\<close> issued at clock 1000 comes back at
  clock 2000, the provider answers with \<open>example_response\<close>, and the token manager
  accepts the write. The call succeeds and the token set of the test is stored.
\<close>

theorem callback_persists_token_set_witness:
  "fst (handleCallback example_config example_provider Accepts 2000 3000 ''test-code'' ''a1'' example_issued)
     = Inr ()
   \<and> getTokens (tokenManager
       (snd (handleCallback example_config example_provider Accepts 2000 3000 ''test-code'' ''a1''
               example_issued)))
     = Inr \<lparr>accessToken = ''test-access-token'', refreshToken = ''test-account-id'',
            expiresAt = 3601000, scope = ''Tasks.Read User.Read offline_access''\<rparr>"
proof -
  let ?h = "handleCallback example_config example_provider Accepts 2000 3000 ''test-code'' ''a1''
              example_issued"
  have 1: "fmlookup (stateStore example_issued) ''a1'' = Some \<lparr>timestamp = 1000, codeVerifier = None\<rparr>"
    by (simp add: lookup_example_issued)
  have 2: "2000 - timestamp \<lparr>timestamp = 1000, codeVerifier = None\<rparr> < maxAge example_config"
    unfolding example_timeout by simp
  have 3: "acquireTokenByCode example_provider ''test-code'' client_scopes
             (AZURE_REDIRECT_URI example_config) = Resolves (Some example_response)"
    by (simp add: example_provider_def example_msal_def)
  have 4: "response_accessToken example_response \<noteq> []"
    by (simp add: example_response_def)
  have 5: "getAllAccounts example_provider = Resolves (Some [\<lparr>homeAccountId = ''test-account-id''\<rparr>])"
    by (simp add: example_provider_def example_msal_def)
  have 6: "fst ?h = Inr ()"
    unfolding handleCallback_stores [OF 1 2 3 4 5] by simp
  from callback_persists_token_set [OF 6 3 5]
  obtain tokens where t: "getTokens (tokenManager (snd ?h)) = Inr tokens"
      "accessToken tokens = ''test-access-token''"
      "refreshToken tokens = ''test-account-id''"
      "expiresAt tokens = 3601000"
      "scope tokens = ''Tasks.Read User.Read offline_access''"
    by (auto simp: example_response_def)
  then have "tokens = \<lparr>accessToken = ''test-access-token'', refreshToken = ''test-account-id'',
            expiresAt = 3601000, scope = ''Tasks.Read User.Read offline_access''\<rparr>"
    by simp
  with t 6 show ?thesis by simp
qed

section \<open>Refreshing the access token\<close>

subsection \<open>The fast path\<close>



subsection \<open>A failed refresh\<close>

text \<open>
  When the provider rejects the exchange or answers \<^verbatim>\<open>null\<close>, the token manager is
  cleared and the call throws \<open>AuthenticationError\<close>.
\<close>

lemma refresh_failure_clears:
  assumes stored: "tokenManager this = Some tokens"
    and stale: "\<not> (expiresAt tokens - now > expiryBuffer)"
    and idle: "refreshPromise this = None"
    and fails: "acquireTokenByRefreshToken msalClient (refreshToken tokens) refresh_scopes = Rejects
              \<or> acquireTokenByRefreshToken msalClient (refreshToken tokens) refresh_scopes = Resolves None"
  shows "getValidAccessToken msalClient now now' this =
           (Throws (AuthenticationError ''Session expired. Please re-authenticate.''),
            this\<lparr>msalCalls := msalCalls this @ [AcquireTokenByRefreshToken (refreshToken tokens) refresh_scopes],
                 tokenManager := None\<rparr>)"
  using assms
  by (auto simp: getValidAccessToken_def getTokens_def refreshAccessToken_def
        refreshAccessToken_settle_def Let_def clearTokens_def)

text \<open>
  Claim C2 does not hold of the code for an answer whose access token is empty.
  \<open>handleCallback\<close> treats such an answer as invalid; \<open>refreshAccessToken\<close> tests the
  answer for \<^verbatim>\<open>null\<close> only. At clock 1000, with a stored token set that expires two
  minutes later and a provider that answers the exchange with an empty access token:
  the call returns the empty string, and the token manager holds a token set with
  an empty access token, valid for an hour.
\<close>

theorem empty_access_token_persisted:
  "getValidAccessToken
     (example_msal Rejects (Resolves (Some \<lparr>response_accessToken = [], expiresOn = None, scopes = None\<rparr>)))
     1000 2000 (new_refresher (Some (example_tokens 121000)))
   = (Returns [],
      \<lparr>tokenManager = Some \<lparr>accessToken = [], refreshToken = ''refresh-token'',
                             expiresAt = 3602000, scope = ''Tasks.Read User.Read''\<rparr>,
       msalCalls = [AcquireTokenByRefreshToken ''refresh-token'' [''Tasks.Read'', ''User.Read'']],
       refreshPromise = None\<rparr>)"
  by (simp add: getValidAccessToken_def getTokens_def refreshAccessToken_def
        refreshAccessToken_settle_def Let_def new_refresher_def example_tokens_def example_msal_def
        expiryBuffer_def refresh_scopes_def updateAccessToken_def)

section \<open>Single flight\<close>

subsection \<open>While no call has resumed from its refresh\<close>

lemma settle_keeps:
  "refreshPromise (snd (refreshAccessToken_settle now answer this)) = refreshPromise this"
  "msalCalls (snd (refreshAccessToken_settle now answer this)) = msalCalls this"
  by (simp_all add: refreshAccessToken_settle_def Let_def split: awaited.splits option.splits)








subsection \<open>One refresh at a time\<close>

text \<open>
  Whatever the interleaving, two refreshes are never in flight together: a refresh is
  started only when the marker is empty, and the marker is emptied only by the call
  that awaited the refresh, after it has settled.
\<close>

lemma one_at_a_time_parts:
  assumes "one_at_a_time rt"
  shows "\<And>p. p < length (refreshes rt) \<Longrightarrow> refreshPromise (refresher rt) \<noteq> Some p \<Longrightarrow>
           \<exists>result. refreshes rt ! p = Settled result"
    and "\<And>i q. i < length (callers rt) \<Longrightarrow> callers rt ! i = AwaitRefresh q \<Longrightarrow>
           refreshPromise (refresher rt) = Some q"
    and "\<And>i q j q'. i < length (callers rt) \<Longrightarrow> callers rt ! i = AwaitRefresh q \<Longrightarrow>
           j < length (callers rt) \<Longrightarrow> callers rt ! j = AwaitRefresh q' \<Longrightarrow> j = i"
proof -
  from assms have a: "\<forall>p<length (refreshes rt). refreshPromise (refresher rt) \<noteq> Some p \<longrightarrow>
        (\<exists>result. refreshes rt ! p = Settled result)"
    and b: "\<forall>i<length (callers rt). \<forall>q. callers rt ! i = AwaitRefresh q \<longrightarrow>
        refreshPromise (refresher rt) = Some q \<and>
        (\<forall>j<length (callers rt). \<forall>q'. callers rt ! j = AwaitRefresh q' \<longrightarrow> j = i)"
    unfolding one_at_a_time_def by (rule conjunct1, rule conjunct2)
  show "\<And>p. p < length (refreshes rt) \<Longrightarrow> refreshPromise (refresher rt) \<noteq> Some p \<Longrightarrow>
           \<exists>result. refreshes rt ! p = Settled result"
    using a by blast
  show "\<And>i q. i < length (callers rt) \<Longrightarrow> callers rt ! i = AwaitRefresh q \<Longrightarrow>
           refreshPromise (refresher rt) = Some q"
    using b by blast
  show "\<And>i q j q'. i < length (callers rt) \<Longrightarrow> callers rt ! i = AwaitRefresh q \<Longrightarrow>
           j < length (callers rt) \<Longrightarrow> callers rt ! j = AwaitRefresh q' \<Longrightarrow> j = i"
    using b by blast
qed

lemma one_at_a_timeI:
  assumes "\<And>p. p < length (refreshes rt) \<Longrightarrow> refreshPromise (refresher rt) \<noteq> Some p \<Longrightarrow>
           \<exists>result. refreshes rt ! p = Settled result"
    and "\<And>i q. i < length (callers rt) \<Longrightarrow> callers rt ! i = AwaitRefresh q \<Longrightarrow>
           refreshPromise (refresher rt) = Some q"
    and "\<And>i q j q'. i < length (callers rt) \<Longrightarrow> callers rt ! i = AwaitRefresh q \<Longrightarrow>
           j < length (callers rt) \<Longrightarrow> callers rt ! j = AwaitRefresh q' \<Longrightarrow> j = i"
  shows "one_at_a_time rt"
  unfolding one_at_a_time_def using assms by blast

lemma one_at_a_time_Call:
  assumes inv: "one_at_a_time rt" and st: "step Call rt = Some rt'"
  shows "one_at_a_time rt'"
proof (rule one_at_a_timeI)
  let ?c = "AwaitGetTokens (getTokens (tokenManager (refresher rt)))"
  have rt': "rt' = rt\<lparr>callers := callers rt @ [?c]\<rparr>"
    using st by simp
  have old: "i < length (callers rt) \<and> callers rt ! i = AwaitRefresh q"
    if "i < length (callers rt')" "callers rt' ! i = AwaitRefresh q" for i q
  proof -
    have "i \<noteq> length (callers rt)" using that unfolding rt' by auto
    then show ?thesis using that unfolding rt' by (simp add: nth_append)
  qed
  show "\<exists>result. refreshes rt' ! p = Settled result"
    if "p < length (refreshes rt')" "refreshPromise (refresher rt') \<noteq> Some p" for p
    using one_at_a_time_parts(1) [OF inv, of p] that unfolding rt' by simp
  show "refreshPromise (refresher rt') = Some q"
    if "i < length (callers rt')" "callers rt' ! i = AwaitRefresh q" for i q
    using one_at_a_time_parts(2) [OF inv, of i q] old [OF that] unfolding rt' by simp
  show "j = i"
    if "i < length (callers rt')" "callers rt' ! i = AwaitRefresh q"
       "j < length (callers rt')" "callers rt' ! j = AwaitRefresh q'" for i q j q'
    using one_at_a_time_parts(3) [OF inv, of i q j q'] old [OF that(1,2)] old [OF that(3,4)]
    by blast
qed

lemma one_at_a_time_ResumeCall:
  assumes inv: "one_at_a_time rt" and st: "step (ResumeCall k msalClient now) rt = Some rt'"
  shows "one_at_a_time rt'"
proof -
  have k: "k < length (callers rt)"
    using st by (simp split: if_splits)
  from st k obtain r where r: "callers rt ! k = AwaitGetTokens r"
    by (auto split: caller.splits)
  consider
      (other) c where "rt' = rt\<lparr>callers := (callers rt)[k := c]\<rparr>" "\<And>q. c \<noteq> AwaitRefresh q"
    | (fresh) tokens :: TokenSet where "refreshPromise (refresher rt) = None"
        "rt' = rt\<lparr>refresher := (refresher rt)\<lparr>
                   msalCalls := msalCalls (refresher rt) @
                     [AcquireTokenByRefreshToken (refreshToken tokens) refresh_scopes],
                   refreshPromise := Some (length (refreshes rt))\<rparr>,
                 refreshes := refreshes rt @
                   [AwaitExchange (acquireTokenByRefreshToken msalClient
                                     (refreshToken tokens) refresh_scopes)],
                 callers := (callers rt)[k := AwaitRefresh (length (refreshes rt))]\<rparr>"
  proof (cases r)
    case (Inl e)
    then have "rt' = rt\<lparr>callers := (callers rt)[k := Finished (Inl e)]\<rparr>"
      using st k r by simp
    then show ?thesis using that(1) by blast
  next
    case (Inr tokens)
    show ?thesis
    proof (cases "expiresAt tokens - now > expiryBuffer")
      case True
      then have "rt' = rt\<lparr>callers := (callers rt)[k := Finished (Inr (accessToken tokens))]\<rparr>"
        using st k r Inr by simp
      then show ?thesis using that(1) by blast
    next
      case False
      show ?thesis
      proof (cases "refreshPromise (refresher rt)")
        case None
        then show ?thesis using st k r Inr False that(2) [of tokens] by simp
      next
        case (Some p)
        then have "rt' = rt\<lparr>callers := (callers rt)[k := ReturnedPromise p]\<rparr>"
          using st k r Inr False by simp
        then show ?thesis using that(1) by blast
      qed
    qed
  qed
  then show ?thesis
  proof cases
    case other
    have old: "i < length (callers rt) \<and> callers rt ! i = AwaitRefresh q"
      if "i < length (callers rt')" "callers rt' ! i = AwaitRefresh q" for i q
    proof -
      have "i \<noteq> k" using that other k by (auto simp: nth_list_update)
      then show ?thesis using that unfolding other(1) by simp
    qed
    show ?thesis
    proof (rule one_at_a_timeI)
      show "\<exists>result. refreshes rt' ! p = Settled result"
        if "p < length (refreshes rt')" "refreshPromise (refresher rt') \<noteq> Some p" for p
        using one_at_a_time_parts(1) [OF inv, of p] that unfolding other(1) by simp
      show "refreshPromise (refresher rt') = Some q"
        if "i < length (callers rt')" "callers rt' ! i = AwaitRefresh q" for i q
        using one_at_a_time_parts(2) [OF inv, of i q] old [OF that] unfolding other(1) by simp
      show "j = i"
        if "i < length (callers rt')" "callers rt' ! i = AwaitRefresh q"
           "j < length (callers rt')" "callers rt' ! j = AwaitRefresh q'" for i q j q'
        using one_at_a_time_parts(3) [OF inv, of i q j q'] old [OF that(1,2)] old [OF that(3,4)]
        by blast
    qed
  next
    case fresh
    have none: "callers rt ! i \<noteq> AwaitRefresh q" if "i < length (callers rt)" for i q
      using one_at_a_time_parts(2) [OF inv that, of q] fresh(1) by auto
    have only: "i = k \<and> q = length (refreshes rt)"
      if "i < length (callers rt')" "callers rt' ! i = AwaitRefresh q" for i q
    proof (cases "i = k")
      case True
      then show ?thesis using that k unfolding fresh(2) by simp
    next
      case False
      then have "callers rt ! i = AwaitRefresh q" "i < length (callers rt)"
        using that unfolding fresh(2) by simp_all
      then show ?thesis using none by blast
    qed
    show ?thesis
    proof (rule one_at_a_timeI)
      show "\<exists>result. refreshes rt' ! p = Settled result"
        if "p < length (refreshes rt')" "refreshPromise (refresher rt') \<noteq> Some p" for p
      proof -
        have "p < length (refreshes rt)" using that unfolding fresh(2) by simp
        then show ?thesis
          using one_at_a_time_parts(1) [OF inv, of p] fresh(1) unfolding fresh(2)
          by (simp add: nth_append)
      qed
      show "refreshPromise (refresher rt') = Some q"
        if "i < length (callers rt')" "callers rt' ! i = AwaitRefresh q" for i q
        using only [OF that] unfolding fresh(2) by simp
      show "j = i"
        if "i < length (callers rt')" "callers rt' ! i = AwaitRefresh q"
           "j < length (callers rt')" "callers rt' ! j = AwaitRefresh q'" for i q j q'
        using only [OF that(1,2)] only [OF that(3,4)] by blast
    qed
  qed
qed

lemma settle_keeps_marker:
  "refreshAccessToken_settle now answer this = (result, this') \<Longrightarrow>
     refreshPromise this' = refreshPromise this"
  using settle_keeps(1) [of now answer this] by simp

lemma one_at_a_time_refresh_steps:
  assumes inv: "one_at_a_time rt"
    and st: "step (ExchangeDone p now) rt = Some rt' \<or> step (StoreDone p) rt = Some rt'"
  shows "one_at_a_time rt'"
proof -
  from st have same: "callers rt' = callers rt"
      "refreshPromise (refresher rt') = refreshPromise (refresher rt)"
      "length (refreshes rt') = length (refreshes rt)"
    and p: "p < length (refreshes rt)" "\<forall>result. refreshes rt ! p \<noteq> Settled result"
    and rest: "\<forall>q. q \<noteq> p \<longrightarrow> refreshes rt' ! q = refreshes rt ! q"
    by (auto split: if_splits refresh_task.splits prod.splits dest: settle_keeps_marker)
  have m: "refreshPromise (refresher rt) = Some p"
    using one_at_a_time_parts(1) [OF inv p(1)] p(2) by blast
  show ?thesis
  proof (rule one_at_a_timeI)
    show "\<exists>result. refreshes rt' ! q = Settled result"
      if "q < length (refreshes rt')" "refreshPromise (refresher rt') \<noteq> Some q" for q
    proof -
      have "q \<noteq> p" using that(2) m same(2) by simp
      then show ?thesis
        using one_at_a_time_parts(1) [OF inv, of q] that rest same by simp
    qed
    show "refreshPromise (refresher rt') = Some q"
      if "i < length (callers rt')" "callers rt' ! i = AwaitRefresh q" for i q
      using one_at_a_time_parts(2) [OF inv, of i q] that same by simp
    show "j = i"
      if "i < length (callers rt')" "callers rt' ! i = AwaitRefresh q"
         "j < length (callers rt')" "callers rt' ! j = AwaitRefresh q'" for i q j q'
      using one_at_a_time_parts(3) [OF inv, of i q j q'] that unfolding same(1) by blast
  qed
qed

lemma one_at_a_time_ResumeOwner:
  assumes inv: "one_at_a_time rt" and st: "step (ResumeOwner k) rt = Some rt'"
  shows "one_at_a_time rt'"
proof -
  from st obtain p result where k: "k < length (callers rt)"
      and c: "callers rt ! k = AwaitRefresh p"
      and p: "p < length (refreshes rt)"
      and t: "refreshes rt ! p = Settled result"
      and rt': "rt' = rt\<lparr>refresher := (refresher rt)\<lparr>refreshPromise := None\<rparr>,
                          callers := (callers rt)[k := Finished result]\<rparr>"
    by (auto split: if_splits caller.splits refresh_task.splits)
  have m: "refreshPromise (refresher rt) = Some p"
    using one_at_a_time_parts(2) [OF inv k c] .
  have none: "False" if "i < length (callers rt')" "callers rt' ! i = AwaitRefresh q" for i q
  proof (cases "i = k")
    case True
    then show ?thesis using that k unfolding rt' by simp
  next
    case False
    then have "i < length (callers rt)" "callers rt ! i = AwaitRefresh q"
      using that unfolding rt' by simp_all
    from one_at_a_time_parts(3) [OF inv k c this] False show ?thesis by simp
  qed
  show ?thesis
  proof (rule one_at_a_timeI)
    show "\<exists>result. refreshes rt' ! q = Settled result"
      if "q < length (refreshes rt')" "refreshPromise (refresher rt') \<noteq> Some q" for q
    proof (cases "q = p")
      case True
      then show ?thesis using t unfolding rt' by simp
    next
      case False
      then show ?thesis
        using one_at_a_time_parts(1) [OF inv, of q] that(1) m unfolding rt' by simp
    qed
    show "refreshPromise (refresher rt') = Some q"
      if "i < length (callers rt')" "callers rt' ! i = AwaitRefresh q" for i q
      using none [OF that] by simp
    show "j = i"
      if "i < length (callers rt')" "callers rt' ! i = AwaitRefresh q"
         "j < length (callers rt')" "callers rt' ! j = AwaitRefresh q'" for i q j q'
      using none [OF that(1,2)] by simp
  qed
qed

lemma one_at_a_time_step:
  assumes "one_at_a_time rt" and "step ev rt = Some rt'"
  shows "one_at_a_time rt'"
proof (cases ev)
  case Call
  then show ?thesis using assms one_at_a_time_Call by simp
next
  case (ResumeCall k msalClient now)
  then show ?thesis using assms one_at_a_time_ResumeCall by simp
next
  case (ExchangeDone p now)
  then show ?thesis using assms one_at_a_time_refresh_steps by blast
next
  case (StoreDone p)
  then show ?thesis using assms one_at_a_time_refresh_steps by blast
next
  case (ResumeOwner k)
  then show ?thesis using assms one_at_a_time_ResumeOwner by simp
qed

lemma one_at_a_time_run:
  "one_at_a_time rt \<Longrightarrow> run tr rt = Some rt' \<Longrightarrow> one_at_a_time rt'"
proof (induction tr arbitrary: rt)
  case Nil
  then show ?case by simp
next
  case (Cons ev tr)
  from Cons.prems(2) obtain rt1 where s: "step ev rt = Some rt1" and r: "run tr rt1 = Some rt'"
    by (auto split: option.splits)
  have "one_at_a_time rt1"
    using Cons.prems(1) s by (rule one_at_a_time_step)
  then show ?case using r by (rule Cons.IH)
qed

lemma one_refresh_at_a_time:
  assumes "run tr (start this) = Some rt"
    and "p < length (refreshes rt)" and "\<forall>result. refreshes rt ! p \<noteq> Settled result"
    and "q < length (refreshes rt)" and "\<forall>result. refreshes rt ! q \<noteq> Settled result"
  shows "p = q"
proof -
  have "one_at_a_time (start this)"
    by (rule one_at_a_timeI) (simp_all add: start_def)
  then have inv: "one_at_a_time rt"
    using assms(1) by (rule one_at_a_time_run)
  have "refreshPromise (refresher rt) = Some p"
    using one_at_a_time_parts(1) [OF inv assms(2)] assms(3) by blast
  moreover have "refreshPromise (refresher rt) = Some q"
    using one_at_a_time_parts(1) [OF inv assms(4)] assms(5) by blast
  ultimately show ?thesis by simp
qed

subsection \<open>One call alone\<close>

text \<open>
  The events of one call that finds its token set stale, with no other call in
  between, do what \<open>getValidAccessToken\<close> does.
\<close>

lemma lone_call_agrees:
  assumes idle: "refreshPromise this = None"
    and stored: "tokenManager this = Some tokens"
    and old: "\<not> (expiresAt tokens - now > expiryBuffer)"
  shows "\<exists>result.
           run [Call, ResumeCall 0 msalClient now, ExchangeDone 0 now', StoreDone 0, ResumeOwner 0]
               (start this)
             = Some \<lparr>refresher = snd (getValidAccessToken msalClient now now' this),
                     refreshes = [Settled result], callers = [Finished result]\<rparr>
         \<and> fst (getValidAccessToken msalClient now now' this)
             = (case result of Inl e \<Rightarrow> Throws e | Inr a \<Rightarrow> Returns a)"
  using assms
  by (auto simp: start_def getValidAccessToken_def refreshAccessToken_def
        refreshAccessToken_settle_def getTokens_def Let_def
      split: awaited.splits option.splits)

subsection \<open>Many calls\<close>







end
